theory Spec2Isabelle
  imports Complex_Main
begin

section \<open>Python values and exceptions\<close>

text \<open>
  The exceptions the modelled functions can raise. A function that can raise returns
  \<open>error + 'a\<close>, with \<open>Inl\<close> for the exception.
\<close>

datatype error =
    ValueError
  | TypeError
  | AttributeError
  | AssertionError
  | IndexError
  | IOError
  | CvError
  | NanResult

text \<open>
  \<open>CvError\<close> is \<open>cv2.error\<close>, and \<open>IOError\<close> is what PIL raises for a file it cannot
  read. \<open>NanResult\<close> is not an exception: numpy divides by zero with a warning and
  fills the array with \<open>nan\<close>, a value the real numbers of this model do not have, so
  the model stops there and reports it.
\<close>

definition and_then :: "error + 'a \<Rightarrow> ('a \<Rightarrow> error + 'b) \<Rightarrow> error + 'b" where
  "and_then m f = (case m of Inl e \<Rightarrow> Inl e | Inr x \<Rightarrow> f x)"

text \<open>Sequencing of fallible steps: the first exception ends the computation.\<close>

fun mapM :: "('a \<Rightarrow> error + 'b) \<Rightarrow> 'a list \<Rightarrow> error + 'b list" where
  "mapM f [] = Inr []"
| "mapM f (x # xs) =
     (case f x of
        Inl e \<Rightarrow> Inl e
      | Inr y \<Rightarrow> (case mapM f xs of Inl e \<Rightarrow> Inl e | Inr ys \<Rightarrow> Inr (y # ys)))"

section \<open>Hexadecimal strings (src/paletti.py, lines 99-115)\<close>

subsection \<open>Formatting: the conversions \<open>%X\<close> and \<open>%02x\<close>\<close>

definition hexdigit :: "nat \<Rightarrow> char" where
  "hexdigit d = ''0123456789abcdef'' ! d"

definition hexdigit_upper :: "nat \<Rightarrow> char" where
  "hexdigit_upper d = ''0123456789ABCDEF'' ! d"

text \<open>The digits of a natural number in base 16, most significant first.\<close>

fun to_hex :: "(nat \<Rightarrow> char) \<Rightarrow> nat \<Rightarrow> string" where
  "to_hex dig n = (if n < 16 then [dig n] else to_hex dig (n div 16) @ [dig (n mod 16)])"

declare to_hex.simps [simp del]

text \<open>
  \<open>'%X' % i\<close>: a minus sign for a negative integer, then the digits of its absolute
  value.
\<close>

definition format_X :: "int \<Rightarrow> string" where
  "format_X i =
     (if i < 0 then CHR ''-'' # to_hex hexdigit_upper (nat (- i)) else to_hex hexdigit_upper (nat i))"

text \<open>
  \<open>'%02x' % i\<close>: the flag \<open>0\<close> with width 2 pads with zeros after the sign up to
  two characters in all.
\<close>

definition format_02x :: "int \<Rightarrow> string" where
  "format_02x i =
     (if i < 0 then CHR ''-'' # to_hex hexdigit (nat (- i))
      else let ds = to_hex hexdigit (nat i) in replicate (2 - length ds) CHR ''0'' @ ds)"

text \<open>
  \<open>rgb2hex(rgb)\<close> is \<open>'#%02x%02x%02x' % rgb\<close>: the argument is a tuple of three
  integers.
\<close>

definition rgb2hex :: "int \<times> int \<times> int \<Rightarrow> string" where
  "rgb2hex rgb = (case rgb of (r, g, b) \<Rightarrow> ''#'' @ format_02x r @ format_02x g @ format_02x b)"

subsection \<open>Parsing: \<open>int(s, 16)\<close>\<close>

definition hexval :: "char \<Rightarrow> nat option" where
  "hexval c =
     (let n = (of_char c :: nat) in
      if 48 \<le> n \<and> n \<le> 57 then Some (n - 48)
      else if 97 \<le> n \<and> n \<le> 102 then Some (n - 87)
      else if 65 \<le> n \<and> n \<le> 70 then Some (n - 55)
      else None)"

text \<open>The value of a string of hexadecimal digits read after the accumulator \<open>acc\<close>.\<close>

fun hexdigits_value :: "nat \<Rightarrow> string \<Rightarrow> nat option" where
  "hexdigits_value acc [] = Some acc"
| "hexdigits_value acc (c # cs) =
     (case hexval c of None \<Rightarrow> None | Some d \<Rightarrow> hexdigits_value (16 * acc + d) cs)"

definition is_space :: "char \<Rightarrow> bool" where
  "is_space c = ((of_char c :: nat) \<in> {9, 10, 11, 12, 13, 32})"

definition strip :: "string \<Rightarrow> string" where
  "strip s = rev (dropWhile is_space (rev (dropWhile is_space s)))"

text \<open>
  \<open>int(s, 16)\<close>: surrounding whitespace is ignored, then an optional sign, an optional
  prefix \<open>0x\<close> or \<open>0X\<close>, and at least one hexadecimal digit; anything else raises
  \<open>ValueError\<close>.
\<close>

definition unsigned_int16 :: "string \<Rightarrow> error + int" where
  "unsigned_int16 s =
     (let ds = (if take 2 s = ''0x'' \<or> take 2 s = ''0X'' then drop 2 s else s) in
      if ds = [] then Inl ValueError
      else case hexdigits_value 0 ds of None \<Rightarrow> Inl ValueError | Some n \<Rightarrow> Inr (int n))"

definition int16 :: "string \<Rightarrow> error + int" where
  "int16 s =
     (case strip s of
        [] \<Rightarrow> Inl ValueError
      | c # cs \<Rightarrow>
          if c = CHR ''-'' then (case unsigned_int16 cs of Inl e \<Rightarrow> Inl e | Inr n \<Rightarrow> Inr (- n))
          else if c = CHR ''+'' then unsigned_int16 cs
          else unsigned_int16 (c # cs))"

subsection \<open>\<open>hex2rgb\<close>\<close>

text \<open>
  \<open>range(0, lv, step)\<close> for a positive \<open>step\<close>: the start of every slice. The
  fuel \<open>n\<close> is the number of values still to produce.
\<close>

fun range_from :: "nat \<Rightarrow> nat \<Rightarrow> nat \<Rightarrow> nat list" where
  "range_from i step 0 = []"
| "range_from i step (Suc n) = i # range_from (i + step) step n"

definition range_step :: "nat \<Rightarrow> nat \<Rightarrow> error + nat list" where
  "range_step lv step =
     (if step = 0 then Inl ValueError
      else Inr (range_from 0 step ((lv + step - 1) div step)))"

text \<open>
  \<^verbatim>\<open>
  def hex2rgb(hexcolor):
      value = hexcolor.lstrip('#') if hexcolor.startswith('#') else hexcolor
      lv = len(value)
      return [int(value[i:i + lv // 3], 16) for i in range(0, lv, lv // 3)]
  \<close>
  A string of fewer than three characters makes the step zero, and \<open>range\<close> raises
  \<open>ValueError\<close>.
\<close>

definition hex2rgb :: "string \<Rightarrow> error + int list" where
  "hex2rgb hexcolor =
     (let v = (if take 1 hexcolor = ''#'' then dropWhile (\<lambda>c. c = CHR ''#'') hexcolor
               else hexcolor);
          lv = length v
      in case range_step lv (lv div 3) of
           Inl e \<Rightarrow> Inl e
         | Inr starts \<Rightarrow> mapM (\<lambda>i. int16 (take (lv div 3) (drop i v))) starts)"

subsection \<open>\<open>complementary_color\<close>\<close>

text \<open>A Python list has no attribute \<open>join\<close>: looking it up raises \<open>AttributeError\<close>.\<close>

definition list_join :: "string list \<Rightarrow> error + string" where
  "list_join xs = Inl AttributeError"

text \<open>
  \<^verbatim>\<open>
  def complementary_color(incolor):
      if incolor.startswith('#'):
          incolor = incolor[1:]
      rgb = (incolor[0:2], incolor[2:4], incolor[4:6])
      comp = ['02%X' % (255 - int(a, 16)) for a in rgb]
      return comp.join()
  \<close>
\<close>

definition complementary_color :: "string \<Rightarrow> error + string" where
  "complementary_color incolor0 =
     (let incolor = (if take 1 incolor0 = ''#'' then drop 1 incolor0 else incolor0);
          rgb = [take 2 incolor, take 2 (drop 2 incolor), take 2 (drop 4 incolor)]
      in case mapM (\<lambda>a. case int16 a of
                           Inl e \<Rightarrow> Inl e
                         | Inr n \<Rightarrow> Inr (''02'' @ format_X (255 - n))) rgb of
           Inl e \<Rightarrow> Inl e
         | Inr comp_list \<Rightarrow> list_join comp_list)"

section \<open>Arrays (numpy)\<close>

text \<open>
  An \<open>ndarray\<close> is its shape and its elements in row-major (C) order, the layout
  every array of the program has. The size of an array is the product of its shape.
\<close>

record 'a ndarray =
  shape :: "nat list"
  flat :: "'a list"

definition np_size :: "'a ndarray \<Rightarrow> nat" where
  "np_size a = prod_list (shape a)"

text \<open>\<open>len(a)\<close>: the first dimension; a 0-dimensional array has no length.\<close>

definition np_len :: "'a ndarray \<Rightarrow> error + nat" where
  "np_len a = (case shape a of [] \<Rightarrow> Inl TypeError | n # _ \<Rightarrow> Inr n)"

text \<open>Elementwise operations (\<open>a / 255.\<close>, \<open>a * 255\<close>, \<open>a.astype(...)\<close>).\<close>

definition np_map :: "('a \<Rightarrow> 'b) \<Rightarrow> 'a ndarray \<Rightarrow> 'b ndarray" where
  "np_map f a = \<lparr>shape = shape a, flat = map f (flat a)\<rparr>"

text \<open>\<open>a.squeeze()\<close> removes every axis of length one.\<close>

definition np_squeeze :: "'a ndarray \<Rightarrow> 'a ndarray" where
  "np_squeeze a = \<lparr>shape = filter (\<lambda>n. n \<noteq> 1) (shape a), flat = flat a\<rparr>"

text \<open>\<open>np.expand_dims(a, axis=0)\<close>.\<close>

definition np_expand_dims0 :: "'a ndarray \<Rightarrow> 'a ndarray" where
  "np_expand_dims0 a = \<lparr>shape = 1 # shape a, flat = flat a\<rparr>"

text \<open>
  \<open>a.reshape(dims)\<close> and \<open>np.reshape(a, dims)\<close> keep the elements in their order.
  One dimension may be \<open>-1\<close> and is then inferred; any other negative dimension, and
  a shape of another size than the array's, raise \<open>ValueError\<close>.
\<close>

definition np_reshape :: "'a ndarray \<Rightarrow> int list \<Rightarrow> error + 'a ndarray" where
  "np_reshape a dims =
     (let n = np_size a;
          known = nat (prod_list (filter (\<lambda>d. d \<noteq> - 1) dims))
      in if list_ex (\<lambda>d. d < - 1) dims \<or> 1 < length (filter (\<lambda>d. d = - 1) dims)
         then Inl ValueError
         else if list_ex (\<lambda>d. d = - 1) dims
         then (if known = 0 \<or> n mod known \<noteq> 0 then Inl ValueError
               else Inr \<lparr>shape = map (\<lambda>d. if d = - 1 then n div known else nat d) dims,
                         flat = flat a\<rparr>)
         else if known = n then Inr \<lparr>shape = map nat dims, flat = flat a\<rparr>
         else Inl ValueError)"

text \<open>
  \<open>a[i]\<close> for an index \<open>i \<ge> 0\<close>: the \<open>i\<close>-th sub-array along the first axis.
\<close>

definition np_getitem :: "'a ndarray \<Rightarrow> nat \<Rightarrow> error + 'a ndarray" where
  "np_getitem a i =
     (case shape a of
        [] \<Rightarrow> Inl IndexError
      | n # rest \<Rightarrow>
          if i < n
          then Inr \<lparr>shape = rest,
                    flat = take (prod_list rest) (drop (i * prod_list rest) (flat a))\<rparr>
          else Inl IndexError)"

text \<open>
  \<open>x.astype('uint8')\<close> on a float: the fraction is cut off (towards zero) and the
  integer is taken modulo 256.
\<close>

definition astype_uint8 :: "real \<Rightarrow> nat" where
  "astype_uint8 x = nat ((if x < 0 then \<lceil>x\<rceil> else \<lfloor>x\<rfloor>) mod 256)"

text \<open>The rows of \<open>n\<close> elements of a flat list.\<close>

fun chunks_aux :: "nat \<Rightarrow> nat \<Rightarrow> 'a list \<Rightarrow> 'a list list" where
  "chunks_aux 0 n xs = []"
| "chunks_aux (Suc m) n xs = take n xs # chunks_aux m n (drop n xs)"

definition chunks :: "nat \<Rightarrow> 'a list \<Rightarrow> 'a list list" where
  "chunks n xs = chunks_aux (length xs div n) n xs"

subsection \<open>\<open>np.histogram(a, bins=b, normed=True)\<close>\<close>

definition amin :: "nat list \<Rightarrow> nat" where
  "amin a = fold min (tl a) (hd a)"

definition amax :: "nat list \<Rightarrow> nat" where
  "amax a = fold max (tl a) (hd a)"

text \<open>
  The \<open>b\<close> bins have equal width and span the range from \<open>mn\<close> to \<open>mx\<close>; every bin
  is closed on the left and open on the right, but the last, which holds \<open>mx\<close> too.
\<close>

definition bin_index :: "real \<Rightarrow> real \<Rightarrow> nat \<Rightarrow> real \<Rightarrow> nat" where
  "bin_index mn mx b x =
     (if x = mx then b - 1 else nat \<lfloor>(x - mn) * real b / (mx - mn)\<rfloor>)"

text \<open>
  The range is from the least to the greatest element of \<open>a\<close>, widened by a half on
  each side when they are equal. With \<open>normed=True\<close> every count is divided by the bin
  width and by the number of elements. An empty \<open>a\<close> divides zero by zero.
\<close>

definition np_histogram_normed :: "nat list \<Rightarrow> nat \<Rightarrow> error + real list" where
  "np_histogram_normed a bins =
     (if bins < 1 then Inl ValueError
      else if a = [] then Inl NanResult
      else
        let mn0 = real (amin a); mx0 = real (amax a);
            mn = (if mn0 = mx0 then mn0 - 1 / 2 else mn0);
            mx = (if mn0 = mx0 then mx0 + 1 / 2 else mx0);
            n = map (\<lambda>i. real (length (filter (\<lambda>x. bin_index mn mx bins (real x) = i) a)))
                  [0..<bins];
            db = (mx - mn) / real bins
        in Inr (map (\<lambda>c. c / db / sum_list n) n))"

text \<open>\<open>percent /= float(percent.sum())\<close>\<close>

definition divide_by_sum :: "real list \<Rightarrow> error + real list" where
  "divide_by_sum percent =
     (if sum_list percent = 0 then Inl NanResult
      else Inr (map (\<lambda>p. p / sum_list percent) percent))"

text \<open>
  Lines 44-45 of src/paletti.py and 43-44 of src/paletti/paletti.py:
  \<^verbatim>\<open>
  percent, _ = np.histogram(labels, bins=len(maincolors), normed=True)
  percent /= float(percent.sum())
  \<close>
\<close>

definition compute_percent :: "nat list \<Rightarrow> 'a ndarray \<Rightarrow> error + real list" where
  "compute_percent labels maincolors =
     and_then (np_len maincolors) (\<lambda>bins.
     and_then (np_histogram_normed labels bins) divide_by_sum)"

section \<open>The libraries the program calls\<close>

text \<open>
  A palette is the named tuple \<open>Palette(colors, percent)\<close>.
\<close>

record Palette =
  colors :: "real ndarray"
  percent :: "real list"

text \<open>
  A PIL image: its size (width, height), its number of bands (3 for RGB, 4 for RGBA,
  1 for a greyscale or palette image) and its pixels, row by row.
\<close>

record image =
  im_size :: "nat \<times> nat"
  im_bands :: nat
  im_data :: "nat list"

text \<open>
  The functions of OpenCV, PIL, scikit-learn and of the module \<open>utils\<close> that the two
  files call, as parameters of the model:
  \<^item> \<open>imread\<close> is \<open>cv2.imread\<close>, which returns \<open>None\<close> for a file it cannot read;
  \<^item> \<open>BGR2LAB\<close> and \<open>LAB2RGB\<close> are the 8-bit colour conversions of \<open>cv2.cvtColor\<close>
    on one pixel;
  \<^item> \<open>Image_open\<close> is \<open>PIL.Image.open\<close>, and \<open>ANTIALIAS\<close> gives the pixels of an
    image resampled to a new size with that filter;
  \<^item> \<open>rgb2lab\<close> and \<open>lab2rgb\<close> are the functions imported from \<open>utils\<close>;
  \<^item> \<open>KMeans k imarr\<close> is \<open>KMeans(n_clusters=k, n_jobs=-1).fit(imarr)\<close>: it raises,
    or gives \<open>cluster_centers_\<close> and the labels \<open>predict(imarr)\<close>.
\<close>

record libs =
  imread :: "string \<Rightarrow> nat ndarray option"
  BGR2LAB :: "nat \<times> nat \<times> nat \<Rightarrow> nat \<times> nat \<times> nat"
  LAB2RGB :: "nat \<times> nat \<times> nat \<Rightarrow> nat \<times> nat \<times> nat"
  Image_open :: "string \<Rightarrow> error + image"
  ANTIALIAS :: "image \<Rightarrow> nat \<times> nat \<Rightarrow> nat list"
  rgb2lab :: "nat ndarray \<Rightarrow> error + real ndarray"
  lab2rgb :: "real ndarray \<Rightarrow> error + real ndarray"
  KMeans :: "int \<Rightarrow> real ndarray \<Rightarrow> error + real ndarray \<times> nat list"

text \<open>
  \<open>cv2.cvtColor(src, code)\<close> for a conversion \<open>code\<close> from three colour channels to
  three: the source has three or four channels (a fourth is ignored), the result has
  the same rows and columns and three channels.
\<close>

definition cvtColor :: "(nat \<times> nat \<times> nat \<Rightarrow> nat \<times> nat \<times> nat) \<Rightarrow> nat ndarray \<Rightarrow> error + nat ndarray" where
  "cvtColor code src =
     (case shape src of
        [rows, cols, d] \<Rightarrow>
          if d = 3 \<or> d = 4
          then Inr \<lparr>shape = [rows, cols, 3],
                    flat = concat (map (\<lambda>p. case code (p ! 0, p ! 1, p ! 2) of
                                              (x, y, z) \<Rightarrow> [x, y, z])
                                   (chunks d (flat src)))\<rparr>
          else Inl CvError
      | _ \<Rightarrow> Inl CvError)"

text \<open>
  \<open>Image.thumbnail(size, resample)\<close> of PIL, on Python 2 (integer division):
  \<^verbatim>\<open>
  x, y = self.size
  if x > size[0]: y = int(max(y * size[0] / x, 1)); x = int(size[0])
  if y > size[1]: x = int(max(x * size[1] / y, 1)); y = int(size[1])
  size = x, y
  if size == self.size: return
  ... self.resize(size, resample) ...
  \<close>
\<close>

definition thumbnail_size :: "nat \<times> nat \<Rightarrow> nat \<times> nat \<Rightarrow> nat \<times> nat" where
  "thumbnail_size sz box =
     (case sz of (x0, y0) \<Rightarrow> case box of (bx, by) \<Rightarrow>
        let y1 = (if x0 > bx then max (y0 * bx div x0) 1 else y0);
            x1 = (if x0 > bx then bx else x0);
            x2 = (if y1 > by then max (x1 * by div y1) 1 else x1);
            y2 = (if y1 > by then by else y1)
        in (x2, y2))"

definition thumbnail :: "(image \<Rightarrow> nat \<times> nat \<Rightarrow> nat list) \<Rightarrow> image \<Rightarrow> nat \<times> nat \<Rightarrow> image" where
  "thumbnail resample im box =
     (let sz = thumbnail_size (im_size im) box
      in if sz = im_size im then im else im\<lparr>im_size := sz, im_data := resample im sz\<rparr>)"

text \<open>
  \<open>np.asarray(im)\<close>: height first, then width, then the bands when there are several.
\<close>

definition np_asarray :: "image \<Rightarrow> nat ndarray" where
  "np_asarray im =
     (case im_size im of (x, y) \<Rightarrow>
        \<lparr>shape = (if im_bands im = 1 then [y, x] else [y, x, im_bands im]), flat = im_data im\<rparr>)"

section \<open>\<open>kmeans_palette\<close>\<close>

text \<open>
  Both files flatten the converted image the same way:
  \<^verbatim>\<open>
  w, h, d = tuple(img.shape)
  assert d == 3
  imarr = np.reshape(img, (w * h, d))
  \<close>
\<close>

definition flatten_image :: "'a ndarray \<Rightarrow> error + 'a ndarray" where
  "flatten_image img =
     (case shape img of
        [w, h, d] \<Rightarrow>
          if d = 3 then np_reshape img [int (w * h), int d] else Inl AssertionError
      | _ \<Rightarrow> Inl ValueError)"

subsection \<open>src/paletti.py\<close>

text \<open>
  Lines 20-25: the samples \<open>imarr\<close> handed to \<open>KMeans\<close>.
  \<^verbatim>\<open>
  origimg = cv2.cvtColor(cv2.imread(imfile), cv2.COLOR_BGR2LAB)
  img = origimg.astype('float64') / 255.
  w, h, d = tuple(img.shape)
  assert d == 3
  imarr = np.reshape(img, (w * h, d))
  \<close>
\<close>

definition kmeans_palette_imarr :: "libs \<Rightarrow> string \<Rightarrow> error + real ndarray" where
  "kmeans_palette_imarr L imfile =
     (case imread L imfile of
        None \<Rightarrow> Inl CvError
      | Some bgr \<Rightarrow>
          and_then (cvtColor (BGR2LAB L) bgr) (\<lambda>origimg.
          flatten_image (np_map (\<lambda>v. real v / 255) origimg)))"

text \<open>
  Lines 28-47.
  \<^verbatim>\<open>
  kmeans = KMeans(n_clusters=k, n_jobs=-1).fit(imarr)
  labels = kmeans.predict(imarr)
  maincolors = kmeans.cluster_centers_
  maincolors = (maincolors.reshape((k, 1, 3)) * 255).astype('uint8')
  maincolors = cv2.cvtColor(maincolors, cv2.COLOR_LAB2RGB)
  maincolors = maincolors.astype('float64') / 255.
  percent, _ = np.histogram(labels, bins=len(maincolors), normed=True)
  percent /= float(percent.sum())
  return Palette(maincolors.squeeze(), percent)
  \<close>
\<close>

definition kmeans_palette :: "libs \<Rightarrow> string \<Rightarrow> int \<Rightarrow> error + Palette" where
  "kmeans_palette L imfile k =
     and_then (kmeans_palette_imarr L imfile) (\<lambda>imarr.
     and_then (KMeans L k imarr) (\<lambda>fitted. case fitted of (cluster_centers, labels) \<Rightarrow>
     and_then (np_reshape cluster_centers [k, 1, 3]) (\<lambda>reshaped.
     and_then (cvtColor (LAB2RGB L) (np_map (\<lambda>x. astype_uint8 (x * 255)) reshaped)) (\<lambda>rgb.
     let maincolors = np_map (\<lambda>v. real v / 255) rgb in
     and_then (compute_percent labels maincolors) (\<lambda>percent.
     Inr \<lparr>colors = np_squeeze maincolors, percent = percent\<rparr>)))))"

subsection \<open>src/paletti/paletti.py\<close>

definition RSIZE :: nat where
  "RSIZE = 600"

text \<open>
  Lines 22-27: the samples \<open>imarr\<close> handed to \<open>KMeans\<close>.
  \<^verbatim>\<open>
  origimg = Image.open(fname)
  origimg.thumbnail((RSIZE, RSIZE), Image.ANTIALIAS)
  img = rgb2lab(np.asarray(origimg))
  w, h, d = tuple(img.shape)
  assert d == 3
  imarr = np.reshape(img, (w * h, d))
  \<close>
\<close>

definition kmeans_palette_pkg_imarr :: "libs \<Rightarrow> string \<Rightarrow> error + real ndarray" where
  "kmeans_palette_pkg_imarr L fname =
     and_then (Image_open L fname) (\<lambda>opened.
     let origimg = thumbnail (ANTIALIAS L) opened (RSIZE, RSIZE) in
     and_then (rgb2lab L (np_asarray origimg)) flatten_image)"

text \<open>
  Lines 36-38: the clustered image.
  \<^verbatim>\<open>
  cluster_img = np.zeros(imarr.shape, dtype='float')
  for i, lab in enumerate(labels):
      cluster_img[i] = maincolors[lab]
  \<close>
  \<open>maincolors\<close> has been squeezed, so \<open>maincolors[lab]\<close> is a scalar, which fills the
  row, or must have the shape of the row.
\<close>

definition cluster_row :: "real ndarray \<Rightarrow> nat \<Rightarrow> nat \<Rightarrow> nat \<times> nat \<Rightarrow> error + real list" where
  "cluster_row maincolors n d il =
     (case il of (i, lab) \<Rightarrow>
        and_then (np_getitem maincolors lab) (\<lambda>v.
        if n \<le> i then Inl IndexError
        else if shape v = [] then Inr (replicate d (hd (flat v)))
        else if shape v = [d] then Inr (flat v)
        else Inl ValueError))"

definition cluster_image :: "real ndarray \<Rightarrow> nat list \<Rightarrow> real ndarray \<Rightarrow> error + real ndarray" where
  "cluster_image maincolors labels imarr =
     (case shape imarr of
        [n, d] \<Rightarrow>
          and_then (mapM (cluster_row maincolors n d) (enumerate 0 labels)) (\<lambda>rows.
          Inr \<lparr>shape = [n, d],
               flat = concat (rows @ replicate (n - length rows) (replicate d 0))\<rparr>)
      | _ \<Rightarrow> Inl ValueError)"

text \<open>
  Lines 29-45. The clustered image is written to a file; the model keeps the
  exceptions of building it, and not the file, whose writing is taken to succeed.
  \<^verbatim>\<open>
  kmeans = KMeans(n_clusters=k, n_jobs=-1).fit(imarr)
  labels = kmeans.predict(imarr)
  maincolors = kmeans.cluster_centers_
  maincolors = np.expand_dims(maincolors, axis=0)
  maincolors = lab2rgb(maincolors).squeeze()
  maincolors = maincolors.astype('float64') / 255.
  ... cluster_img ...
  percent, _ = np.histogram(labels, bins=len(maincolors), normed=True)
  percent /= float(percent.sum())
  return Palette(maincolors.squeeze(), percent)
  \<close>
\<close>

definition kmeans_palette_pkg :: "libs \<Rightarrow> string \<Rightarrow> int \<Rightarrow> error + Palette" where
  "kmeans_palette_pkg L fname k =
     and_then (kmeans_palette_pkg_imarr L fname) (\<lambda>imarr.
     and_then (KMeans L k imarr) (\<lambda>fitted. case fitted of (cluster_centers, labels) \<Rightarrow>
     and_then (lab2rgb L (np_expand_dims0 cluster_centers)) (\<lambda>rgb.
     let maincolors = np_map (\<lambda>v. v / 255) (np_squeeze rgb) in
     and_then (cluster_image maincolors labels imarr) (\<lambda>cluster_img.
     and_then (compute_percent labels maincolors) (\<lambda>percent.
     Inr \<lparr>colors = np_squeeze maincolors, percent = percent\<rparr>)))))"

section \<open>\<open>get_palette\<close>\<close>

text \<open>
  The three other strategies wrap calls of colorific, PIL's quantiser and a web
  service; they are parameters here, as is the k-means strategy of either file.
\<close>

record strategies =
  k_means :: "string \<Rightarrow> int \<Rightarrow> error + Palette"
  colorific_palette :: "string \<Rightarrow> int \<Rightarrow> error + Palette"
  pil_palette :: "string \<Rightarrow> int \<Rightarrow> error + Palette"
  pictaculous_palette :: "string \<Rightarrow> error + Palette"

text \<open>
  \<^verbatim>\<open>
  def get_palette(fname, k=5, method='k-means'):
      if method == 'k-means':
          return kmeans_palette(fname, k=k)
      elif method == 'colorific':
          return colorific_palette(fname, k=k)
      elif method == 'pil':
          return pil_palette(fname, k=k)
      elif method == 'pictaculous':
          return pictaculous_palette(fname)
  \<close>
  A call that reaches the end of the body returns \<open>None\<close>.
\<close>

definition get_palette :: "strategies \<Rightarrow> string \<Rightarrow> int \<Rightarrow> string \<Rightarrow> error + Palette option" where
  "get_palette S fname k method =
     (if method = ''k-means'' then map_sum id Some (k_means S fname k)
      else if method = ''colorific'' then map_sum id Some (colorific_palette S fname k)
      else if method = ''pil'' then map_sum id Some (pil_palette S fname k)
      else if method = ''pictaculous'' then map_sum id Some (pictaculous_palette S fname)
      else Inr None)"

section \<open>Notions used in the statements\<close>

text \<open>
  The range of the histogram of a list of labels, and the share of the labels that
  falls into bin \<open>i\<close> of \<open>b\<close>.
\<close>

definition hist_lo :: "nat list \<Rightarrow> real" where
  "hist_lo a = (if amin a = amax a then real (amin a) - 1 / 2 else real (amin a))"

definition hist_hi :: "nat list \<Rightarrow> real" where
  "hist_hi a = (if amin a = amax a then real (amax a) + 1 / 2 else real (amax a))"

definition bin_share :: "nat list \<Rightarrow> nat \<Rightarrow> nat \<Rightarrow> real" where
  "bin_share a b i =
     real (length (filter (\<lambda>x. bin_index (hist_lo a) (hist_hi a) b (real x) = i) a)) /
     real (length a)"

text \<open>The side to which \<open>pil_palette\<close> of src/paletti.py resizes (line 60).\<close>

definition rsize :: nat where
  "rsize = 150"

section \<open>Example inputs\<close>

text \<open>A palette of one colour, and strategies that all return it.\<close>

definition example_palette :: Palette where
  "example_palette = \<lparr>colors = \<lparr>shape = [1, 3], flat = [1, 0, 0]\<rparr>, percent = [1]\<rparr>"

definition example_strategies :: strategies where
  "example_strategies =
     \<lparr>k_means = (\<lambda>fname k. Inr example_palette),
      colorific_palette = (\<lambda>fname k. Inr example_palette),
      pil_palette = (\<lambda>fname k. Inr example_palette),
      pictaculous_palette = (\<lambda>fname. Inr example_palette)\<rparr>"

text \<open>
  Libraries for the examples: the file holds the array \<open>bgr\<close> for OpenCV and the image
  \<open>im\<close> for PIL, the colour conversions change no value and keep the shape, the
  resampling yields black pixels, and the clustering puts every sample into cluster 0
  and gives every centre the colour of the first sample, which is what k-means
  finds in an image of a single colour.
\<close>

definition example_libs :: "nat ndarray \<Rightarrow> image \<Rightarrow> libs" where
  "example_libs bgr im =
     \<lparr>imread = (\<lambda>f. Some bgr),
      BGR2LAB = (\<lambda>p. p),
      LAB2RGB = (\<lambda>p. p),
      Image_open = (\<lambda>f. Inr im),
      ANTIALIAS = (\<lambda>im sz. replicate (fst sz * snd sz * im_bands im) 0),
      rgb2lab = (\<lambda>a. Inr (np_map real a)),
      lab2rgb = (\<lambda>a. Inr a),
      KMeans = (\<lambda>k imarr.
        Inr (\<lparr>shape = [nat k, 3], flat = concat (replicate (nat k) (take 3 (flat imarr)))\<rparr>,
             replicate (hd (shape imarr)) 0))\<rparr>"

text \<open>An image of 601 by 1 pixels, and an array of 601 rows and 600 columns.\<close>

definition wide_image :: image where
  "wide_image = \<lparr>im_size = (601, 1), im_bands = 3, im_data = replicate 1803 0\<rparr>"

definition big_bgr :: "nat ndarray" where
  "big_bgr = \<lparr>shape = [601, 600, 3], flat = replicate 1081800 0\<rparr>"

text \<open>Two pixels of the same colour, as OpenCV and as PIL decode them.\<close>

definition uniform_bgr :: "nat ndarray" where
  "uniform_bgr = \<lparr>shape = [1, 2, 3], flat = [30, 20, 10, 30, 20, 10]\<rparr>"

definition uniform_image :: image where
  "uniform_image = \<lparr>im_size = (2, 1), im_bands = 3, im_data = [10, 20, 30, 10, 20, 30]\<rparr>"

definition uniform_libs :: libs where
  "uniform_libs = example_libs uniform_bgr uniform_image"

text \<open>One pixel with an alpha channel.\<close>

definition rgba_image :: image where
  "rgba_image = \<lparr>im_size = (1, 1), im_bands = 4, im_data = [10, 20, 30, 255]\<rparr>"

section \<open>Hexadecimal colours\<close>

lemma hexval_hexdigit_all: "list_all (\<lambda>d. hexval (hexdigit d) = Some d) [0..<16]"
  by code_simp

lemma hexval_hexdigit: "d < 16 \<Longrightarrow> hexval (hexdigit d) = Some d"
  using hexval_hexdigit_all by (simp add: list_all_iff)

lemma hexval_plain:
  assumes "hexval c = Some d"
  shows "c \<noteq> CHR ''#''" "\<not> is_space c" "c \<noteq> CHR ''-''" "c \<noteq> CHR ''+''"
    "c \<noteq> CHR ''x''" "c \<noteq> CHR ''X''"
  using assms by (auto simp: hexval_def is_space_def Let_def split: if_splits)

lemma to_hex_byte:
  "n < 256 \<Longrightarrow>
   replicate (2 - length (to_hex dig n)) (dig 0) @ to_hex dig n = [dig (n div 16), dig (n mod 16)]"
  by (cases "n < 16")
    (simp_all add: to_hex.simps [of dig n] to_hex.simps [of dig "n div 16"]
      less_mult_imp_div_less)

lemma hexdigit_0: "hexdigit 0 = CHR ''0''"
  by (simp add: hexdigit_def)

lemma format_02x_byte:
  assumes "0 \<le> i" "i < 256"
  shows "format_02x i = [hexdigit (nat i div 16), hexdigit (nat i mod 16)]"
proof -
  have "nat i < 256" using assms by simp
  from to_hex_byte [OF this, of hexdigit] show ?thesis
    using assms by (simp add: format_02x_def hexdigit_0 Let_def)
qed

lemma int16_two_digits:
  assumes "a < 16" "b < 16"
  shows "int16 [hexdigit a, hexdigit b] = Inr (int (16 * a + b))"
proof -
  note A = hexval_plain [OF hexval_hexdigit [OF assms(1)]]
  note B = hexval_plain [OF hexval_hexdigit [OF assms(2)]]
  have "strip [hexdigit a, hexdigit b] = [hexdigit a, hexdigit b]"
    using A B by (simp add: strip_def)
  then show ?thesis
    using A B assms by (simp add: int16_def unsigned_int16_def hexval_hexdigit)
qed

lemma int16_format_02x:
  assumes "0 \<le> i" "i < 256"
  shows "int16 (format_02x i) = Inr i"
proof -
  have "nat i div 16 < 16" "nat i mod 16 < 16" using assms by auto
  then show ?thesis
    using assms by (simp add: format_02x_byte int16_two_digits)
qed

text \<open>
  Claim C8. For every triple \<open>(r, g, b)\<close> of integers between 0 and 255,
  \<open>hex2rgb(rgb2hex((r, g, b)))\<close> returns the list \<open>[r, g, b]\<close>.
\<close>

theorem hex2rgb_rgb2hex:
  assumes "0 \<le> r" "r \<le> 255" "0 \<le> g" "g \<le> 255" "0 \<le> b" "b \<le> 255"
  shows "hex2rgb (rgb2hex (r, g, b)) = Inr [r, g, b]"
proof -
  obtain r1 r2 where r: "format_02x r = [r1, r2]" using assms by (simp add: format_02x_byte)
  obtain g1 g2 where g: "format_02x g = [g1, g2]" using assms by (simp add: format_02x_byte)
  obtain b1 b2 where b: "format_02x b = [b1, b2]" using assms by (simp add: format_02x_byte)
  have "nat r div 16 < 16" using assms by auto
  from hexval_plain(1) [OF hexval_hexdigit [OF this]] have r1: "r1 \<noteq> CHR ''#''"
    using r assms by (simp add: format_02x_byte)
  have ir: "int16 [r1, r2] = Inr r" using int16_format_02x [of r] assms r by simp
  have ig: "int16 [g1, g2] = Inr g" using int16_format_02x [of g] assms g by simp
  have ib: "int16 [b1, b2] = Inr b" using int16_format_02x [of b] assms b by simp
  have rng: "range_step 6 2 = Inr [0, 2, 4]"
    by (simp add: range_step_def numeral_3_eq_3)
  define v where "v = [r1, r2, g1, g2, b1, b2]"
  have len: "length v = 6" by (simp add: v_def)
  have hex: "rgb2hex (r, g, b) = CHR ''#'' # v"
    by (simp add: rgb2hex_def r g b v_def)
  have stripped:
    "(if take 1 (CHR ''#'' # v) = ''#'' then dropWhile (\<lambda>c. c = CHR ''#'') (CHR ''#'' # v)
      else CHR ''#'' # v) = v"
    using r1 by (simp add: v_def)
  have "hex2rgb (CHR ''#'' # v) = mapM (\<lambda>i. int16 (take 2 (drop i v))) [0, 2, 4]"
    unfolding hex2rgb_def Let_def stripped len by (simp add: rng)
  also have "\<dots> = Inr [r, g, b]"
    by (simp add: v_def ir ig ib)
  finally show ?thesis by (simp add: hex)
qed

theorem hex2rgb_rgb2hex_witness:
  "(0::int) \<le> 18 \<and> (18::int) \<le> 255 \<and> (0::int) \<le> 0 \<and> (0::int) \<le> 255 \<and> (255::int) \<le> 255 \<and>
   rgb2hex (18, 0, 255) = ''#1200ff'' \<and> hex2rgb ''#1200ff'' = Inr [18, 0, 255]"
proof -
  have "rgb2hex (18, 0, 255) = ''#1200ff''" by code_simp
  then show ?thesis
    using hex2rgb_rgb2hex [of 18 0 255] by simp
qed

lemma unsigned_int16_error: "unsigned_int16 s = Inl e \<Longrightarrow> e = ValueError"
  by (auto simp: unsigned_int16_def Let_def split: if_splits option.splits)

lemma int16_error: "int16 s = Inl e \<Longrightarrow> e = ValueError"
  by (auto simp: int16_def split: list.splits if_splits sum.splits dest: unsigned_int16_error)

text \<open>
  Claim C10. For every input string \<open>complementary_color\<close> raises an exception and
  never returns a value: \<open>ValueError\<close> when one of the three slices is not a
  hexadecimal number, and otherwise \<open>AttributeError\<close>, from the call of \<open>join\<close> on a
  list.
\<close>

theorem complementary_color_raises:
  "complementary_color incolor = Inl ValueError \<or> complementary_color incolor = Inl AttributeError"
  unfolding complementary_color_def Let_def
  by (auto simp: list_join_def split: sum.splits dest: int16_error)

lemma complementary_color_examples:
  "complementary_color ''#ff0011'' = Inl AttributeError"
  "complementary_color ''#ff'' = Inl ValueError"
  by code_simp+

section \<open>The choice of the strategy\<close>

text \<open>
  Claim C9. For every file name and every \<open>k\<close>, \<open>get_palette\<close> called with a method
  that is none of \<open>k-means\<close>, \<open>colorific\<close>, \<open>pil\<close> and \<open>pictaculous\<close> returns \<open>None\<close>:
  it raises nothing and calls no strategy.
\<close>

theorem get_palette_unknown_method:
  assumes "method \<notin> {''k-means'', ''colorific'', ''pil'', ''pictaculous''}"
  shows "get_palette S fname k method = Inr None"
  using assms by (simp add: get_palette_def)

theorem get_palette_unknown_method_witness:
  "''median-cut'' \<notin> {''k-means'', ''colorific'', ''pil'', ''pictaculous''} \<and>
   get_palette example_strategies ''photo.png'' 5 ''median-cut'' = Inr None"
  using get_palette_unknown_method [of "''median-cut''" example_strategies "''photo.png''" 5]
  by simp

lemma get_palette_known_method:
  "get_palette example_strategies ''photo.png'' 5 ''pil'' = Inr (Some example_palette)"
  by (simp add: get_palette_def example_strategies_def)

section \<open>Sequencing and flattening\<close>

lemma and_then_Inr [simp]: "and_then (Inr x) f = f x"
  by (simp add: and_then_def)

lemma and_then_Inl [simp]: "and_then (Inl e) f = Inl e"
  by (simp add: and_then_def)

lemma np_reshape_rows:
  assumes "shape img = [w, h, 3]"
  shows "np_reshape img [int (w * h), 3] = Inr \<lparr>shape = [w * h, 3], flat = flat img\<rparr>"
proof -
  have "0 \<le> int w * int h" by simp
  then have "\<not> int w * int h < - 1" "int w * int h \<noteq> - 1" by linarith+
  then show ?thesis
    using assms by (simp add: np_reshape_def np_size_def Let_def nat_mult_distrib)
qed

lemma flatten_image_3:
  assumes "shape img = [w, h, 3]"
  shows "flatten_image img = Inr \<lparr>shape = [w * h, 3], flat = flat img\<rparr>"
  using assms np_reshape_rows [OF assms] by (simp add: flatten_image_def)

lemma flatten_image_not_3:
  assumes "shape img = [w, h, d]" "d \<noteq> 3"
  shows "flatten_image img = Inl AssertionError"
  using assms by (simp add: flatten_image_def)

lemma row_major:
  assumes "shape img = [w, h, 3]" "i < w" "j < h"
  shows "np_getitem \<lparr>shape = [w * h, 3], flat = flat img\<rparr> (i * h + j) =
         and_then (np_getitem img i) (\<lambda>row. np_getitem row j)"
proof -
  have "i * h + j < w * h"
  proof -
    have "i * h + j < i * h + h" using assms by simp
    also have "\<dots> = (i + 1) * h" by simp
    also have "\<dots> \<le> w * h" using assms by (intro mult_le_mono1) simp
    finally show ?thesis .
  qed
  moreover have "take 3 (drop (j * 3) (take (h * 3) (drop (i * (h * 3)) (flat img)))) =
                 take 3 (drop ((i * h + j) * 3) (flat img))"
  proof -
    have "3 \<le> h * 3 - j * 3" using assms by simp
    then show ?thesis
      by (simp add: drop_take min_def algebra_simps)
  qed
  ultimately show ?thesis
    using assms by (simp add: np_getitem_def)
qed


section \<open>The size of the image that is clustered\<close>

lemma scaled_le: "(m::nat) < x \<Longrightarrow> y * m div x \<le> y"
proof -
  assume "m < x"
  then have "y * m div x \<le> y * x div x"
    by (intro div_le_mono mult_le_mono) simp_all
  also have "\<dots> = y" using \<open>m < x\<close> by simp
  finally show ?thesis .
qed

lemma thumbnail_size_fits:
  assumes "thumbnail_size (x, y) (m, m) = (x', y')" "0 < m"
  shows "x' \<le> m \<and> y' \<le> m"
  using assms scaled_le [of m x y] 
  by (auto simp: thumbnail_size_def Let_def max_def split: if_splits intro: order_trans [OF scaled_le])

lemma thumbnail_size_shrinks:
  assumes "thumbnail_size (x, y) (m, m) = (x', y')" "0 < x" "0 < y" "0 < m"
  shows "x' \<le> x \<and> y' \<le> y \<and> 0 < x' \<and> 0 < y'"
  using assms scaled_le [of m x y]
  by (auto simp: thumbnail_size_def Let_def max_def split: if_splits intro: order_trans [OF scaled_le])

lemma thumbnail_size_small:
  assumes "x \<le> m" "y \<le> m"
  shows "thumbnail_size (x, y) (m, m) = (x, y)"
  using assms by (simp add: thumbnail_size_def)

lemma thumbnail_size_touches:
  assumes "thumbnail_size (x, y) (m, m) = (x', y')" "m < x \<or> m < y"
  shows "x' = m \<or> y' = m"
  using assms by (auto simp: thumbnail_size_def Let_def split: if_splits)

text \<open>Scaling one side to the box: the other side is off by less than one pixel.\<close>

lemma scale_one_side:
  fixes x y m :: nat
  assumes "m < x" "0 < y"
  defines "q \<equiv> max (y * m div x) 1"
  shows "m * y \<le> q * x + x" "q * x \<le> m * y + x"
proof -
  have x: "0 < x" using assms by simp
  have lo: "(y * m div x) * x \<le> y * m" by simp
  have hi: "y * m < x + (y * m div x) * x" using x by (rule dividend_less_div_times)
  show "m * y \<le> q * x + x"
  proof -
    have "y * m div x \<le> q" by (simp add: q_def)
    then have "(y * m div x) * x \<le> q * x" by (rule mult_le_mono1)
    moreover have "m * y = y * m" by simp
    ultimately show ?thesis using hi by linarith
  qed
  show "q * x \<le> m * y + x"
  proof (cases "y * m div x = 0")
    case True
    then show ?thesis by (simp add: q_def)
  next
    case False
    then have "q = y * m div x" by (simp add: q_def max_def)
    then have "q * x \<le> y * m" using lo by simp
    moreover have "m * y = y * m" by simp
    ultimately show ?thesis by linarith
  qed
qed

lemma scale_both_sides:
  fixes x y m :: nat
  assumes "m < x" "0 < m" "m < y * m div x"
  defines "q \<equiv> y * m div x"
  defines "a \<equiv> max (m * m div q) 1"
  shows "a * y \<le> m * x + y" "m * x \<le> a * y + y"
proof -
  have x: "0 < x" using assms by simp
  have q: "m < q" "0 < q" using assms by (simp_all add: q_def)
  have qlo: "q * x \<le> y * m" by (simp add: q_def)
  have qhi: "y * m < x + q * x" unfolding q_def using x by (rule dividend_less_div_times)
  have plo: "(m * m div q) * q \<le> m * m" by simp
  have phi: "m * m < q + (m * m div q) * q" using q(2) by (rule dividend_less_div_times)
  have am: "m * m div q \<le> m"
  proof -
    have "m * m div q \<le> m * m div m" using q \<open>0 < m\<close> by (intro div_le_mono2) simp_all
    then show ?thesis using \<open>0 < m\<close> by simp
  qed
  show "a * y \<le> m * x + y"
  proof (cases "m * m div q = 0")
    case True
    then show ?thesis by (simp add: a_def)
  next
    case False
    then have a: "a = m * m div q" by (simp add: a_def max_def)
    have "y * m \<le> x + q * x" using qhi by simp
    then have "a * (y * m) \<le> a * (x + q * x)" by (rule mult_le_mono2)
    also have "\<dots> = a * x + (a * q) * x" by (simp add: algebra_simps)
    also have "\<dots> \<le> m * x + (m * m) * x"
    proof -
      have "a * x \<le> m * x" using am unfolding a by (rule mult_le_mono1)
      moreover have "(a * q) * x \<le> (m * m) * x" using plo unfolding a by (rule mult_le_mono1)
      ultimately show ?thesis by (rule add_mono)
    qed
    also have "\<dots> = (m * x + x) * m" by (simp add: algebra_simps)
    finally have "(a * y) * m \<le> (m * x + x) * m" by (simp add: mult.assoc)
    then have "a * y \<le> m * x + x" using \<open>0 < m\<close> by simp
    moreover have "x \<le> y"
    proof (rule ccontr)
      assume "\<not> x \<le> y"
      then have "y * m \<le> x * m" by simp
      then have "y * m div x \<le> x * m div x" by (rule div_le_mono)
      then show False using assms(3) x by simp
    qed
    ultimately show ?thesis by simp
  qed
  show "m * x \<le> a * y + y"
  proof -
    have "(m * m div q) \<le> a" by (simp add: a_def)
    then have "(m * m div q) * q \<le> a * q" by (rule mult_le_mono1)
    moreover have "(a + 1) * q = q + a * q" by simp
    ultimately have "m * m < (a + 1) * q" using phi by linarith
    then have "m * m * x \<le> (a + 1) * q * x" by simp
    also have "\<dots> = (a + 1) * (q * x)" by (simp only: mult.assoc)
    also have "\<dots> \<le> (a + 1) * (y * m)" using qlo by (rule mult_le_mono2)
    finally have "(m * x) * m \<le> ((a + 1) * y) * m" by (simp add: algebra_simps)
    then have "m * x \<le> (a + 1) * y" using \<open>0 < m\<close> by simp
    then show ?thesis by (simp add: algebra_simps)
  qed
qed


lemma thumbnail_size_aspect:
  assumes "thumbnail_size (x, y) (m, m) = (x', y')" "0 < x" "0 < y" "0 < m"
  shows "x' * y \<le> y' * x + max x y \<and> y' * x \<le> x' * y + max x y"
proof -
  show ?thesis
  proof (cases "m < x")
    case False
    show ?thesis
    proof (cases "m < y")
      case False
      with \<open>\<not> m < x\<close> assms show ?thesis by (simp add: thumbnail_size_def)
    next
      case True
      define a where "a = max (x * m div y) 1"
      from True \<open>\<not> m < x\<close> assms have "x' = a" "y' = m"
        by (auto simp: thumbnail_size_def a_def)
      moreover from scale_one_side [OF True \<open>0 < x\<close>]
      have "m * x \<le> a * y + y" "a * y \<le> m * x + y" by (simp_all add: a_def)
      ultimately show ?thesis by (auto simp: max_def)
    qed
  next
    case True
    show ?thesis
    proof (cases "m < max (y * m div x) 1")
      case False
      define b where "b = max (y * m div x) 1"
      from False True assms have "x' = m" "y' = b"
        by (auto simp: thumbnail_size_def Let_def b_def)
      moreover from scale_one_side [OF True \<open>0 < y\<close>]
      have "m * y \<le> b * x + x" "b * x \<le> m * y + x" by (simp_all add: b_def)
      ultimately show ?thesis by (auto simp: max_def)
    next
      case big: True
      then have q: "m < y * m div x" using \<open>0 < m\<close> by (simp add: max_def split: if_splits)
      then have "max (y * m div x) 1 = y * m div x" by simp
      define a where "a = max (m * m div (y * m div x)) 1"
      from True big assms \<open>max (y * m div x) 1 = y * m div x\<close> have "x' = a" "y' = m"
        by (auto simp: thumbnail_size_def Let_def a_def)
      moreover from scale_both_sides [OF True \<open>0 < m\<close> q]
      have "a * y \<le> m * x + y" "m * x \<le> a * y + y" by (simp_all add: a_def)
      ultimately show ?thesis by (auto simp: max_def)
    qed
  qed
qed

lemma np_asarray_thumbnail:
  assumes "im_size im = (x, y)" "thumbnail_size (x, y) box = (x', y')" "im_bands im \<noteq> 1"
  shows "shape (np_asarray (thumbnail f im box)) = [y', x', im_bands im]"
  using assms by (simp add: np_asarray_def thumbnail_def Let_def)

text \<open>
  Claim C6, as amended. In src/paletti/paletti.py an RGB image of which a side is
  longer than \<open>RSIZE\<close> is shrunk before it is flattened: the new size fits into
  \<open>RSIZE\<close> by \<open>RSIZE\<close> and touches it, no side grows, the two sides are scaled by the
  same factor up to one pixel, and at most \<open>RSIZE\<close> squared samples are handed to the
  clustering. The function \<open>rgb2lab\<close> of \<open>utils\<close> is taken to keep the shape of the
  array.
\<close>

theorem kmeans_palette_pkg_imarr_bounded:
  assumes "Image_open L fname = Inr im" and "im_size im = (x, y)" and "im_bands im = 3"
    and "0 < x" and "0 < y" and "RSIZE < x \<or> RSIZE < y"
    and "thumbnail_size (x, y) (RSIZE, RSIZE) = (x', y')"
    and "rgb2lab L (np_asarray (thumbnail (ANTIALIAS L) im (RSIZE, RSIZE))) = Inr lab"
    and "shape lab = shape (np_asarray (thumbnail (ANTIALIAS L) im (RSIZE, RSIZE)))"
  shows "\<exists>imarr. kmeans_palette_pkg_imarr L fname = Inr imarr \<and> shape imarr = [y' * x', 3] \<and>
           y' * x' \<le> RSIZE * RSIZE \<and> x' \<le> RSIZE \<and> y' \<le> RSIZE \<and> x' \<le> x \<and> y' \<le> y \<and>
           (x' = RSIZE \<or> y' = RSIZE) \<and>
           x' * y \<le> y' * x + max x y \<and> y' * x \<le> x' * y + max x y"
proof -
  have R: "0 < RSIZE" by (simp add: RSIZE_def)
  have "shape lab = [y', x', 3]"
    using assms np_asarray_thumbnail [of im x y "(RSIZE, RSIZE)" x' y'] by simp
  then have "flatten_image lab = Inr \<lparr>shape = [y' * x', 3], flat = flat lab\<rparr>"
    by (rule flatten_image_3)
  then have run: "kmeans_palette_pkg_imarr L fname = Inr \<lparr>shape = [y' * x', 3], flat = flat lab\<rparr>"
    using assms by (simp add: kmeans_palette_pkg_imarr_def Let_def)
  have fits: "x' \<le> RSIZE \<and> y' \<le> RSIZE"
    using assms(7) R by (rule thumbnail_size_fits)
  then have "y' * x' \<le> RSIZE * RSIZE" by (simp add: mult_le_mono)
  moreover have "x' \<le> x \<and> y' \<le> y \<and> 0 < x' \<and> 0 < y'"
    using assms(7) assms(4) assms(5) R by (rule thumbnail_size_shrinks)
  moreover have "x' = RSIZE \<or> y' = RSIZE"
    using assms(7) assms(6) by (rule thumbnail_size_touches)
  moreover have "x' * y \<le> y' * x + max x y \<and> y' * x \<le> x' * y + max x y"
    using assms(7) assms(4) assms(5) R by (rule thumbnail_size_aspect)
  ultimately show ?thesis using run fits by simp
qed

theorem kmeans_palette_pkg_imarr_bounded_witness:
  "Image_open (example_libs uniform_bgr wide_image) ''wide.png'' = Inr wide_image \<and>
   im_size wide_image = (601, 1) \<and> im_bands wide_image = 3 \<and> RSIZE < 601 \<and>
   thumbnail_size (601, 1) (RSIZE, RSIZE) = (600, 1) \<and>
   (\<exists>imarr. kmeans_palette_pkg_imarr (example_libs uniform_bgr wide_image) ''wide.png'' = Inr imarr \<and>
      shape imarr = [1 * 600, 3] \<and> (1::nat) * 600 \<le> RSIZE * RSIZE)"
proof -
  let ?L = "example_libs uniform_bgr wide_image"
  have a: "Image_open ?L ''wide.png'' = Inr wide_image" by (simp add: example_libs_def)
  have b: "im_size wide_image = (601, 1)" "im_bands wide_image = 3" by (simp_all add: wide_image_def)
  have c: "RSIZE < 601 \<or> RSIZE < 1" by (simp add: RSIZE_def)
  have d: "thumbnail_size (601, 1) (RSIZE, RSIZE) = (600, 1)"
    by (simp add: thumbnail_size_def RSIZE_def)
  have e: "rgb2lab ?L (np_asarray (thumbnail (ANTIALIAS ?L) wide_image (RSIZE, RSIZE))) =
             Inr (np_map real (np_asarray (thumbnail (ANTIALIAS ?L) wide_image (RSIZE, RSIZE))))"
    by (simp add: example_libs_def)
  have f: "shape (np_map real (np_asarray (thumbnail (ANTIALIAS ?L) wide_image (RSIZE, RSIZE)))) =
             shape (np_asarray (thumbnail (ANTIALIAS ?L) wide_image (RSIZE, RSIZE)))"
    by (simp add: np_map_def)
  from kmeans_palette_pkg_imarr_bounded [OF a b(1) b(2) _ _ c d e f]
  show ?thesis using a b c d by (auto simp: RSIZE_def)
qed

text \<open>
  src/paletti.py hands every pixel of the decoded image to the clustering: it has no
  step that shrinks the image.
\<close>

lemma kmeans_palette_imarr_shape:
  assumes "imread L imfile = Some bgr" "shape bgr = [rows, cols, 3]"
  shows "map_sum id shape (kmeans_palette_imarr L imfile) = Inr [rows * cols, 3]"
proof -
  obtain lab where "cvtColor (BGR2LAB L) bgr = Inr lab" "shape lab = [rows, cols, 3]"
    using assms by (simp add: cvtColor_def)
  moreover have "shape (np_map (\<lambda>v. real v / 255) lab) = shape lab" by (simp add: np_map_def)
  ultimately show ?thesis
    using assms flatten_image_3 [of "np_map (\<lambda>v. real v / 255) lab" rows cols]
    by (simp add: kmeans_palette_imarr_def)
qed

text \<open>
  Claim C6 as stated fails for \<open>kmeans_palette\<close> of src/paletti.py: an image of 601 rows
  and 600 columns gives 360600 samples, more than the square of either bound of the
  repository.
\<close>

theorem kmeans_palette_imarr_unbounded:
  "map_sum id shape (kmeans_palette_imarr (example_libs big_bgr uniform_image) ''big.png'') =
     Inr [601 * 600, 3] \<and>
   \<not> (601::nat) * 600 \<le> RSIZE * RSIZE \<and> \<not> (601::nat) * 600 \<le> rsize * rsize"
proof -
  have "imread (example_libs big_bgr uniform_image) ''big.png'' = Some big_bgr"
    by (simp add: example_libs_def)
  moreover have "shape big_bgr = [601, 600, 3]" by (simp add: big_bgr_def)
  ultimately have
    "map_sum id shape (kmeans_palette_imarr (example_libs big_bgr uniform_image) ''big.png'') =
       Inr [601 * 600, 3]"
    by (rule kmeans_palette_imarr_shape)
  then show ?thesis by (simp add: RSIZE_def rsize_def)
qed

section \<open>The flattened samples\<close>





section \<open>The proportions\<close>

lemma amin_Min: "a \<noteq> [] \<Longrightarrow> amin a = Min (set a)"
proof (cases a)
  case (Cons y ys)
  then show ?thesis using Min.set_eq_fold [of y ys] by (simp add: amin_def)
qed simp

lemma amax_Max: "a \<noteq> [] \<Longrightarrow> amax a = Max (set a)"
proof (cases a)
  case (Cons y ys)
  then show ?thesis using Max.set_eq_fold [of y ys] by (simp add: amax_def)
qed simp

lemma amin_le: "x \<in> set a \<Longrightarrow> amin a \<le> x"
  using amin_Min [of a] by (cases "a = []") simp_all

lemma amax_ge: "x \<in> set a \<Longrightarrow> x \<le> amax a"
  using amax_Max [of a] by (cases "a = []") simp_all

lemma amax_in: "a \<noteq> [] \<Longrightarrow> amax a \<in> set a"
  using amax_Max [of a] Max_in [of "set a"] by simp

lemma bin_index_less:
  assumes "mn < mx" "mn \<le> x" "x \<le> mx" "0 < b"
  shows "bin_index mn mx b x < b"
proof (cases "x = mx")
  case True
  with assms show ?thesis by (simp add: bin_index_def)
next
  case False
  with assms have "x < mx" by simp
  then have "(x - mn) * real b / (mx - mn) < real b"
    using assms by (simp add: divide_simps mult.commute)
  then have "\<lfloor>(x - mn) * real b / (mx - mn)\<rfloor> < int b"
    by (simp add: floor_less_iff)
  then show ?thesis
    using False assms by (simp add: bin_index_def)
qed

lemma sum_list_bin_counts:
  assumes "\<And>x. x \<in> set a \<Longrightarrow> f x < b"
  shows "(\<Sum>i\<leftarrow>[0..<b]. real (length (filter (\<lambda>x. f x = i) a))) = real (length a)"
  using assms
proof (induction a)
  case Nil
  then show ?case by simp
next
  case (Cons x a)
  have fx: "f x < b" using Cons.prems by simp
  have "(\<Sum>i\<leftarrow>[0..<b]. real (length (filter (\<lambda>y. f y = i) (x # a))))
      = (\<Sum>i\<leftarrow>[0..<b]. (if f x = i then 1 else 0) + real (length (filter (\<lambda>y. f y = i) a)))"
    by (rule arg_cong [where f = sum_list]) simp
  also have "\<dots> = (\<Sum>i\<leftarrow>[0..<b]. if f x = i then 1 else 0) +
                  (\<Sum>i\<leftarrow>[0..<b]. real (length (filter (\<lambda>y. f y = i) a)))"
    by (simp add: sum_list_addf)
  also have "(\<Sum>i\<leftarrow>[0..<b]. if f x = i then 1 else 0) = (1::real)"
    using fx by (simp add: interv_sum_list_conv_sum_set_nat)
  finally show ?case using Cons by simp
qed

lemma hist_range:
  assumes "x \<in> set a"
  shows "hist_lo a < hist_hi a" "hist_lo a \<le> real x" "real x \<le> hist_hi a"
proof -
  have "amin a \<le> x" "x \<le> amax a" using assms by (rule amin_le, rule amax_ge)
  then show "hist_lo a < hist_hi a" "hist_lo a \<le> real x" "real x \<le> hist_hi a"
    by (auto simp: hist_lo_def hist_hi_def)
qed

lemma bin_counts_total:
  assumes "0 < b"
  shows "(\<Sum>i\<leftarrow>[0..<b]. real (length (filter
            (\<lambda>x. bin_index (hist_lo a) (hist_hi a) b (real x) = i) a))) = real (length a)"
proof (rule sum_list_bin_counts)
  fix x assume "x \<in> set a"
  from hist_range [OF this] assms
  show "bin_index (hist_lo a) (hist_hi a) b (real x) < b" by (intro bin_index_less)
qed

lemma np_histogram_normed_eq:
  assumes "a \<noteq> []" "0 < b"
  shows "np_histogram_normed a b =
           Inr (map (\<lambda>i. bin_share a b i * (real b / (hist_hi a - hist_lo a))) [0..<b])"
proof -
  let ?f = "\<lambda>x. bin_index (hist_lo a) (hist_hi a) b (real x)"
  have "np_histogram_normed a b =
          Inr (map (\<lambda>c. c / ((hist_hi a - hist_lo a) / real b) / real (length a))
                 (map (\<lambda>i. real (length (filter (\<lambda>x. ?f x = i) a))) [0..<b]))"
    using assms bin_counts_total [OF assms(2), of a]
    by (simp add: np_histogram_normed_def Let_def hist_lo_def hist_hi_def cong: if_cong)
  then show ?thesis
    by (simp add: bin_share_def comp_def)
qed

lemma sum_list_bin_share:
  assumes "a \<noteq> []" "0 < b"
  shows "(\<Sum>i\<leftarrow>[0..<b]. bin_share a b i) = 1"
proof -
  let ?f = "\<lambda>x. bin_index (hist_lo a) (hist_hi a) b (real x)"
  have "(\<Sum>i\<leftarrow>[0..<b]. real (length (filter (\<lambda>x. ?f x = i) a))) * inverse (real (length a)) = 1"
    using assms bin_counts_total [OF assms(2), of a] by simp
  then show ?thesis
    unfolding bin_share_def divide_inverse by (simp only: sum_list_mult_const)
qed

lemma compute_percent_eq:
  assumes "labels \<noteq> []" "shape maincolors = k # rest" "0 < k"
  shows "compute_percent labels maincolors = Inr (map (bin_share labels k) [0..<k])"
proof -
  let ?w = "real k / (hist_hi labels - hist_lo labels)"
  obtain x where "x \<in> set labels" using assms(1) by (cases labels) auto
  then have "hist_lo labels < hist_hi labels" by (rule hist_range)
  then have w: "?w \<noteq> 0" using assms(3) by simp
  let ?h = "map (\<lambda>i. bin_share labels k i * ?w) [0..<k]"
  have "sum_list ?h = (\<Sum>i\<leftarrow>[0..<k]. bin_share labels k i) * ?w"
    by (simp only: sum_list_mult_const)
  then have total: "sum_list ?h = ?w"
    using sum_list_bin_share [OF assms(1) assms(3)] by simp
  have "divide_by_sum ?h = Inr (map (\<lambda>p. p / ?w) ?h)"
    unfolding divide_by_sum_def total using w by simp
  also have "map (\<lambda>p. p / ?w) ?h = map (bin_share labels k) [0..<k]"
    using w by (simp add: comp_def)
  finally show ?thesis
    using assms by (simp add: compute_percent_def np_len_def np_histogram_normed_eq)
qed

lemma bin_index_label:
  assumes "0 \<in> set a" "k - 1 \<in> set a" "\<And>x. x \<in> set a \<Longrightarrow> x < k" "x \<in> set a"
  shows "bin_index (hist_lo a) (hist_hi a) k (real x) = x"
proof -
  have ne: "a \<noteq> []" using assms(4) by auto
  have k: "0 < k" using assms(3,4) by force
  have "amin a \<le> 0" using assms(1) by (rule amin_le)
  then have mn: "amin a = 0" by simp
  have "k - 1 \<le> amax a" using assms(2) by (rule amax_ge)
  moreover have "amax a < k" using assms(3) amax_in [OF ne] by simp
  ultimately have mx: "amax a = k - 1" by simp
  have xk: "x < k" using assms(3,4) by simp
  show ?thesis
  proof (cases "k = 1")
    case True
    then have "x = 0" using xk by simp
    then show ?thesis
      using True mn mx by (simp add: hist_lo_def hist_hi_def bin_index_def)
  next
    case False
    then have k2: "2 \<le> k" using k by simp
    show ?thesis
    proof (cases "x = k - 1")
      case True
      then show ?thesis
        using k2 mn mx by (simp add: hist_lo_def hist_hi_def bin_index_def)
    next
      case False
      then have xl: "x < k - 1" using xk by simp
      have "real x * real k / real (k - 1) = real x + real x / real (k - 1)"
        using k2 by (simp add: field_simps of_nat_diff)
      moreover have "0 \<le> real x / real (k - 1)" "real x / real (k - 1) < 1"
        using xl by simp_all
      ultimately have "\<lfloor>real x * real k / real (k - 1)\<rfloor> = int x"
        by (simp add: floor_unique)
      then show ?thesis
        using False k2 mn mx xl by (simp add: hist_lo_def hist_hi_def bin_index_def)
    qed
  qed
qed

lemma bin_share_frequency:
  assumes "0 \<in> set a" "k - 1 \<in> set a" "\<And>x. x \<in> set a \<Longrightarrow> x < k"
  shows "bin_share a k i = real (length (filter (\<lambda>x. x = i) a)) / real (length a)"
proof -
  have "filter (\<lambda>x. bin_index (hist_lo a) (hist_hi a) k (real x) = i) a = filter (\<lambda>x. x = i) a"
    by (rule filter_cong [OF refl]) (simp add: bin_index_label [OF assms])
  then show ?thesis
    by (simp add: bin_share_def)
qed

text \<open>
  What lines 44-45 compute for any labels and any number of colours: the shares of the
  bins, which are not negative and sum to one.
\<close>

lemma compute_percent_total:
  assumes "labels \<noteq> []" "shape maincolors = k # rest" "0 < k"
  shows "\<exists>p. compute_percent labels maincolors = Inr p \<and> length p = k \<and>
             list_all (\<lambda>x. 0 \<le> x) p \<and> sum_list p = 1 \<and> p = map (bin_share labels k) [0..<k]"
proof -
  have "0 \<le> bin_share labels k i" for i by (simp add: bin_share_def)
  then show ?thesis
    using compute_percent_eq [OF assms] sum_list_bin_share [OF assms(1) assms(3)]
    by (simp add: list_all_iff)
qed

lemma compute_percent_frequency:
  assumes "shape maincolors = k # rest" "0 \<in> set labels" "k - 1 \<in> set labels"
    and "\<And>x. x \<in> set labels \<Longrightarrow> x < k"
  shows "compute_percent labels maincolors =
           Inr (map (\<lambda>i. real (length (filter (\<lambda>x. x = i) labels)) / real (length labels)) [0..<k])"
proof -
  have ne: "labels \<noteq> []" using assms(2) by auto
  have k: "0 < k" using assms(2,4) by force
  show ?thesis
    using compute_percent_eq [OF ne assms(1) k] bin_share_frequency [OF assms(2,3,4)]
    by simp
qed


text \<open>
  Claim C1 fails on the code. For two pixels of one colour and \<open>k = 2\<close> both labels are
  0, and src/paletti.py gives the proportions \<open>[0, 1]\<close>: the share of label 0 stands
  at centre 1, because the bins span the labels that occur and not the range from 0
  to \<open>k\<close>. For \<open>k = 1\<close> src/paletti/paletti.py gives three proportions, \<open>[0, 1, 0]\<close>.
\<close>

theorem kmeans_palette_percent_misplaced:
  "map_sum id snd (and_then (kmeans_palette_imarr uniform_libs ''uniform.png'')
     (KMeans uniform_libs 2)) = Inr [0, 0] \<and>
   map_sum id percent (kmeans_palette uniform_libs ''uniform.png'' 2) = Inr [0, 1] \<and>
   map_sum id percent (kmeans_palette_pkg uniform_libs ''uniform.png'' 1) = Inr [0, 1, 0]"
  by code_simp

section \<open>An exception of the clustering\<close>

text \<open>
  Neither file checks \<open>k\<close>: an exception that \<open>KMeans\<close> raises leaves the function as
  it is, and no palette is returned.
\<close>

lemma kmeans_palette_KMeans_raises:
  assumes "kmeans_palette_imarr L imfile = Inr imarr" "KMeans L k imarr = Inl e"
  shows "kmeans_palette L imfile k = Inl e"
  using assms by (simp add: kmeans_palette_def)

lemma kmeans_palette_pkg_KMeans_raises:
  assumes "kmeans_palette_pkg_imarr L fname = Inr imarr" "KMeans L k imarr = Inl e"
  shows "kmeans_palette_pkg L fname k = Inl e"
  using assms by (simp add: kmeans_palette_pkg_def)

section \<open>The number of entries\<close>

lemma np_reshape_centers:
  assumes "shape centers = [nat k, 3]" "1 \<le> k"
  shows "np_reshape centers [k, 1, 3] = Inr \<lparr>shape = [nat k, 1, 3], flat = flat centers\<rparr>"
  using assms by (simp add: np_reshape_def np_size_def Let_def nat_mult_distrib)

text \<open>With two clusters or more, src/paletti.py returns k colours and k proportions.\<close>

lemma kmeans_palette_entries:
  assumes "kmeans_palette_imarr L imfile = Inr imarr"
    and "KMeans L k imarr = Inr (centers, labels)"
    and "shape centers = [nat k, 3]" and "2 \<le> k" and "labels \<noteq> []"
  shows "\<exists>p. kmeans_palette L imfile k = Inr p \<and> shape (colors p) = [nat k, 3] \<and>
             length (percent p) = nat k"
proof -
  let ?m = "np_map (\<lambda>x. astype_uint8 (x * 255)) \<lparr>shape = [nat k, 1, 3], flat = flat centers\<rparr>"
  have k1: "1 \<le> k" "0 < nat k" "nat k \<noteq> 1" using assms(4) by simp_all
  obtain rgb where rgb: "cvtColor (LAB2RGB L) ?m = Inr rgb" "shape rgb = [nat k, 1, 3]"
    by (simp add: cvtColor_def np_map_def)
  let ?mc = "np_map (\<lambda>v. real v / 255) rgb"
  have sh: "shape ?mc = nat k # [1, 3]" using rgb by (simp add: np_map_def)
  from compute_percent_total [OF assms(5) sh k1(2)]
  obtain pc where pc: "compute_percent labels ?mc = Inr pc" "length pc = nat k" by blast
  have "kmeans_palette L imfile k = Inr \<lparr>colors = np_squeeze ?mc, percent = pc\<rparr>"
    using assms(1,2) np_reshape_centers [OF assms(3) k1(1)] rgb pc
    by (simp add: kmeans_palette_def Let_def)
  moreover have "shape (np_squeeze ?mc) = [nat k, 3]"
    using sh k1 by (simp add: np_squeeze_def)
  ultimately show ?thesis using pc by simp
qed

lemma mapM_total:
  assumes "\<And>x. x \<in> set xs \<Longrightarrow> \<exists>y. f x = Inr y"
  shows "\<exists>ys. mapM f xs = Inr ys"
  using assms
proof (induction xs)
  case Nil
  then show ?case by simp
next
  case (Cons x xs)
  then obtain y ys where "f x = Inr y" "mapM f xs = Inr ys" by (meson list.set_intros)
  then show ?case by simp
qed

text \<open>The same for src/paletti/paletti.py, when \<open>lab2rgb\<close> keeps the shape.\<close>

lemma kmeans_palette_pkg_entries:
  assumes "kmeans_palette_pkg_imarr L fname = Inr imarr" and "shape imarr = [n, 3]"
    and "KMeans L k imarr = Inr (centers, labels)"
    and "shape centers = [nat k, 3]" and "2 \<le> k" and "labels \<noteq> []"
    and "length labels = n" and "\<And>l. l \<in> set labels \<Longrightarrow> l < nat k"
    and "lab2rgb L (np_expand_dims0 centers) = Inr rgb"
    and "shape rgb = shape (np_expand_dims0 centers)"
  shows "\<exists>p. kmeans_palette_pkg L fname k = Inr p \<and> shape (colors p) = [nat k, 3] \<and>
             length (percent p) = nat k"
proof -
  have k1: "0 < nat k" "nat k \<noteq> 1" using assms(5) by simp_all
  let ?mc = "np_map (\<lambda>v. v / 255) (np_squeeze rgb)"
  have sh: "shape ?mc = nat k # [3]"
    using assms(4,10) k1 by (simp add: np_map_def np_squeeze_def np_expand_dims0_def)
  have "\<exists>row. cluster_row ?mc n 3 il = Inr row" if "il \<in> set (enumerate 0 labels)" for il
  proof -
    obtain i l where il: "il = (i, l)" by (cases il)
    with that have "i < n" "l \<in> set labels"
      using assms(7) by (auto simp: in_set_enumerate_eq)
    then have "l < nat k" using assms(8) by simp
    then show ?thesis
      using sh \<open>i < n\<close> by (simp add: il cluster_row_def np_getitem_def)
  qed
  then obtain rows where "mapM (cluster_row ?mc n 3) (enumerate 0 labels) = Inr rows"
    using mapM_total by blast
  then obtain ci where ci: "cluster_image ?mc labels imarr = Inr ci"
    using assms(2) by (simp add: cluster_image_def)
  from compute_percent_total [OF assms(6) sh k1(1)]
  obtain pc where pc: "compute_percent labels ?mc = Inr pc" "length pc = nat k" by blast
  have "kmeans_palette_pkg L fname k = Inr \<lparr>colors = np_squeeze ?mc, percent = pc\<rparr>"
    using assms(1,3,9) ci pc by (simp add: kmeans_palette_pkg_def Let_def)
  moreover have "shape (np_squeeze ?mc) = [nat k, 3]"
    using sh k1 by (simp add: np_squeeze_def)
  ultimately show ?thesis using pc by simp
qed

text \<open>
  Claim C3 fails on the code for \<open>k = 1\<close>: \<open>squeeze\<close> removes the axis of the
  clusters too, so the colours are an array of three numbers and not of one colour.
  src/paletti.py pairs them with one proportion, src/paletti/paletti.py with three.
\<close>

theorem kmeans_palette_one_cluster_entries:
  "map_sum id (\<lambda>p. (shape (colors p), length (percent p)))
     (kmeans_palette uniform_libs ''uniform.png'' 1) = Inr ([3], 1) \<and>
   map_sum id (\<lambda>p. (shape (colors p), length (percent p)))
     (kmeans_palette_pkg uniform_libs ''uniform.png'' 1) = Inr ([3], 3)"
  by code_simp

end
